theory Spec2Isabelle
  imports Complex_Main "HOL-Library.Multiset" "HOL-Library.Word"
begin

section \<open>Errors and Python-style array access\<close>

text \<open>
  The exceptions the two modules can raise, as values. \<open>IndexError\<close> is an
  out-of-range access to an array by Python code, \<open>Uninitialised\<close> a test on a value
  that nothing wrote; the others carry the message or key of the Python exception.
\<close>

datatype error =
    IndexError
  | Uninitialised
  | KeyError string
  | ValueError string
  | URLError string
  | OSError string
  | ProjError

text \<open>
  Python and NumPy indexing: a negative index counts from the end, anything outside
  \<open>-size \<le> i < size\<close> raises.
\<close>

definition norm_index :: "nat \<Rightarrow> int \<Rightarrow> error + nat" where
  "norm_index sz i =
     (let j = (if i < 0 then int sz + i else i)
      in if 0 \<le> j \<and> j < int sz then Inr (nat j) else Inl IndexError)"

definition setitem :: "'a list \<Rightarrow> int \<Rightarrow> 'a \<Rightarrow> error + 'a list" where
  "setitem xs i v =
     (case norm_index (length xs) i of
        Inl e \<Rightarrow> Inl e
      | Inr k \<Rightarrow> Inr (xs[k := v]))"

definition getitem :: "'a list \<Rightarrow> int \<Rightarrow> error + 'a" where
  "getitem xs i =
     (case norm_index (length xs) i of
        Inl e \<Rightarrow> Inl e
      | Inr k \<Rightarrow> Inr (xs ! k))"

text \<open>Sequencing of steps that may raise: the first error ends the computation.\<close>

definition bind_err :: "error + 'a \<Rightarrow> ('a \<Rightarrow> error + 'b) \<Rightarrow> error + 'b" where
  "bind_err m f = (case m of Inl e \<Rightarrow> Inl e | Inr x \<Rightarrow> f x)"

section \<open>construction.py: the Fibonacci lattice\<close>

text \<open>
  \<^verbatim>\<open>compute_fib_grid\<close> is compiled by numba, so its integers are 64-bit and signed:
  the argument is a 64-bit word, and every integer operation leaves the result wrapped
  into \<open>-2^63 \<le> k < 2^63\<close>. 64-bit floating point is idealised as \<^typ>\<open>real\<close>.
\<close>

definition int64 :: "int \<Rightarrow> int" where
  "int64 k = (k + 2 ^ 63) mod 2 ^ 64 - 2 ^ 63"

text \<open>
  \<^verbatim>\<open>np.arange(start, stop)\<close> on 64-bit integers: the number of items is
  \<open>stop - start\<close>, none when that is not positive, and item \<open>k\<close> is \<open>start + k\<close>.
\<close>

definition arange :: "int \<Rightarrow> int \<Rightarrow> int list" where
  "arange start stop =
     map (\<lambda>k. int64 (start + int k)) [0..<nat (int64 (stop - start))]"

text \<open>
  An array of compiled code is its slots together with the memory around them,
  addressed by the index: numba turns a negative index into \<open>i + size\<close> and does not
  check the bounds, so a write outside the range leaves the slots as they are. A slot
  that \<^verbatim>\<open>np.empty\<close> allocated holds \<open>None\<close> until it is written.
\<close>

type_synonym narray = "real option list \<times> (int \<Rightarrow> real option)"

definition np_empty :: "nat \<Rightarrow> narray" where
  "np_empty sz = (replicate sz None, \<lambda>j. None)"

definition nb_index :: "nat \<Rightarrow> int \<Rightarrow> int" where
  "nb_index sz i = (if i < 0 then int64 (i + int sz) else i)"

definition nb_setitem :: "narray \<Rightarrow> int \<Rightarrow> real \<Rightarrow> narray" where
  "nb_setitem a i v =
     (let j = nb_index (length (fst a)) i
      in if 0 \<le> j \<and> j < int (length (fst a)) then ((fst a)[nat j := Some v], snd a)
         else (fst a, (snd a)(j := Some v)))"

definition nb_getitem :: "narray \<Rightarrow> int \<Rightarrow> error + real" where
  "nb_getitem a i =
     (let j = nb_index (length (fst a)) i
      in case (if 0 \<le> j \<and> j < int (length (fst a)) then fst a ! nat j else snd a j) of
           None \<Rightarrow> Inl Uninitialised
         | Some v \<Rightarrow> Inr v)"

text \<open>
  \<^verbatim>\<open>np.mod(x, y)\<close> is the remainder of floor division, with the sign of the divisor.
\<close>

definition np_mod :: "real \<Rightarrow> real \<Rightarrow> real" where
  "np_mod x y = x - of_int \<lfloor>x / y\<rfloor> * y"

definition phi :: real where
  "phi = (1 + sqrt 5) / 2"

definition lat_value :: "int \<Rightarrow> int \<Rightarrow> real" where
  "lat_value n i =
     arcsin (of_int (int64 (2 * i)) / of_int (int64 (int64 (2 * n) + 1))) * 180 / pi"

definition raw_lon :: "int \<Rightarrow> real" where
  "raw_lon i = np_mod (of_int i) phi * 360 / phi"

type_synonym arrays = "narray \<times> narray"

text \<open>One pass of the body of \<^verbatim>\<open>for i in points\<close>, on the pair \<open>(lat, lon)\<close>.\<close>

definition fill_body :: "int \<Rightarrow> arrays \<Rightarrow> int \<Rightarrow> error + arrays" where
  "fill_body n st i =
     (let lat1 = nb_setitem (fst st) i (lat_value n i);
          lon1 = nb_setitem (snd st) i (raw_lon i)
      in bind_err (nb_getitem lon1 i) (\<lambda>v1.
         let lon2 = (if v1 < - 180 then nb_setitem lon1 i (v1 + 360) else lon1)
         in bind_err (nb_getitem lon2 i) (\<lambda>v2.
            let lon3 = (if v2 > 180 then nb_setitem lon2 i (v2 - 360) else lon2)
            in Inr (lat1, lon3))))"

fun fill_loop :: "int \<Rightarrow> int list \<Rightarrow> arrays \<Rightarrow> error + arrays" where
  "fill_loop n [] st = Inr st"
| "fill_loop n (i # rest) st = bind_err (fill_body n st i) (fill_loop n rest)"

text \<open>
  The result tuple \<open>(points, gpi, lon, lat)\<close> of \<^verbatim>\<open>compute_fib_grid\<close>; of the two
  coordinate arrays the slots are returned.
\<close>

type_synonym lattice = "int list \<times> int list \<times> real option list \<times> real option list"

definition compute_fib_grid :: "64 word \<Rightarrow> error + lattice" where
  "compute_fib_grid n =
     (let points = arange (int64 (- sint n)) (int64 (sint n + 1));
          gpi = arange 0 (int (length points));
          lat = np_empty (length points);
          lon = np_empty (length points)
      in bind_err (fill_loop (sint n) points (lat, lon))
           (\<lambda>st. Inr (points, gpi, fst (snd st), fst (fst st))))"

text \<open>
  \<^verbatim>\<open>compute_fib_grid_wgs84\<close> calls the external library \<^verbatim>\<open>pyproj\<close>. The library is
  a parameter of the model: each of its calls may raise, and a transformer maps a pair
  of coordinates to a pair of coordinates or raises.
\<close>

type_synonym transformer = "real \<Rightarrow> real \<Rightarrow> error + real \<times> real"

record 'crs pyproj =
  from_epsg :: "int \<Rightarrow> error + 'crs"
  from_proj4 :: "string \<Rightarrow> error + 'crs"
  from_crs :: "'crs \<Rightarrow> 'crs \<Rightarrow> error + transformer"

text \<open>
  The loop \<^verbatim>\<open>for lon, lat in zip(sphere_lon, sphere_lat)\<close> with its counter \<open>i\<close>, on the
  pair \<open>(wgs84_lat, wgs84_lon)\<close>. What is computed from a slot that nothing wrote is
  not known either: the two results are then \<open>None\<close>.
\<close>

fun transform_loop ::
  "transformer \<Rightarrow> (real option \<times> real option) list \<Rightarrow> int
     \<Rightarrow> real option list \<times> real option list
     \<Rightarrow> error + real option list \<times> real option list" where
  "transform_loop tr [] i st = Inr st"
| "transform_loop tr ((lon, lat) # rest) i st =
     bind_err
       (case (lon, lat) of
          (Some x, Some y) \<Rightarrow> bind_err (tr x y) (\<lambda>r. Inr (Some (fst r), Some (snd r)))
        | _ \<Rightarrow> Inr (None, None))
       (\<lambda>r.
     bind_err (setitem (fst st) i (fst r)) (\<lambda>wgs84_lat.
     bind_err (setitem (snd st) i (snd r)) (\<lambda>wgs84_lon.
     transform_loop tr rest (i + 1) (wgs84_lat, wgs84_lon))))"

definition compute_fib_grid_wgs84 :: "'crs pyproj \<Rightarrow> 64 word \<Rightarrow> error + lattice" where
  "compute_fib_grid_wgs84 proj n =
     bind_err (from_epsg proj 4326) (\<lambda>crs_wgs84.
     bind_err (from_proj4 proj ''+proj=lonlat +ellps=sphere +R=6370997 +towgs84=0,0,0'')
       (\<lambda>crs_sphere.
     bind_err (compute_fib_grid n) (\<lambda>g.
     bind_err (from_crs proj crs_sphere crs_wgs84) (\<lambda>tr.
     (case g of (points, gpi, sphere_lon, sphere_lat) \<Rightarrow>
        bind_err
          (transform_loop tr (zip sphere_lon sphere_lat) 0
             (replicate (length sphere_lat) (Some 0), replicate (length sphere_lon) (Some 0)))
          (\<lambda>st. Inr (points, gpi, snd st, fst st)))))))"

section \<open>realization.py: reading pre-computed grid files\<close>

text \<open>
  The elements of the arrays of a grid file are floating-point numbers (idealised as
  reals) or integers. A data set is the dictionary \<^verbatim>\<open>fp.variables\<close>; a file of the
  cache or of the remote store is a data set or something \<^verbatim>\<open>netCDF4\<close> cannot open.
\<close>

datatype ncval = NcFloat real | NcInt int

type_synonym dataset = "string \<rightharpoonup> ncval list"

datatype ncfile = NetCDF dataset | Garbage

text \<open>
  The file system, the remote store and the log of the I/O the module performs.
  \<open>cache_dir\<close> is \<^verbatim>\<open>CACHE_DIR\<close>, which depends on the platform and the package version.
\<close>

datatype io_event =
    Exists string
  | Warn string
  | Mkdir string
  | Urlretrieve string string
  | OpenDataset string

record world =
  cache_dir :: string
  files :: "string \<rightharpoonup> ncfile"
  remote :: "string \<rightharpoonup> ncfile"
  trace :: "io_event list"

definition DATA_URL :: "(string \<times> string) list" where
  "DATA_URL =
    [(''n430000_sphere'', ''https://github.com/TUW-GEO/fibgrid/releases/download/v0.0.8/fibgrid_sphere_n430000.nc''),
     (''n430000_wgs84'', ''https://github.com/TUW-GEO/fibgrid/releases/download/v0.0.8/fibgrid_wgs84_n430000.nc''),
     (''n1650000_sphere'', ''https://github.com/TUW-GEO/fibgrid/releases/download/v0.0.8/fibgrid_sphere_n1650000.nc''),
     (''n1650000_wgs84'', ''https://github.com/TUW-GEO/fibgrid/releases/download/v0.0.8/fibgrid_wgs84_n1650000.nc''),
     (''n6600000_sphere'', ''https://github.com/TUW-GEO/fibgrid/releases/download/v0.0.8/fibgrid_sphere_n6600000.nc''),
     (''n6600000_wgs84'', ''https://github.com/TUW-GEO/fibgrid/releases/download/v0.0.8/fibgrid_wgs84_n6600000.nc'')]"

text \<open>\<^verbatim>\<open>str.lower\<close> on ASCII letters, and the decimal text of an integer in an f-string.\<close>

definition lower_char :: "char \<Rightarrow> char" where
  "lower_char c =
     (case map_of (zip ''ABCDEFGHIJKLMNOPQRSTUVWXYZ'' ''abcdefghijklmnopqrstuvwxyz'') c of
        None \<Rightarrow> c
      | Some d \<Rightarrow> d)"

definition lower :: "string \<Rightarrow> string" where
  "lower s = map lower_char s"

fun str_nat :: "nat \<Rightarrow> string" where
  "str_nat k =
     (if k < 10 then [''0123456789'' ! k]
      else str_nat (k div 10) @ [''0123456789'' ! (k mod 10)])"

definition str_int :: "int \<Rightarrow> string" where
  "str_int i = (if i < 0 then CHR ''-'' # str_nat (nat (- i)) else str_nat (nat i))"

definition grid_filename :: "world \<Rightarrow> int \<Rightarrow> string \<Rightarrow> string" where
  "grid_filename w n geodatum =
     cache_dir w @ ''/'' @ ''fibgrid_'' @ lower geodatum @ ''_n'' @ str_int n @ ''.nc''"

definition log_event :: "io_event \<Rightarrow> world \<Rightarrow> world" where
  "log_event e w = w\<lparr>trace := trace w @ [e]\<rparr>"

text \<open>
  Lines 83 to 89 of \<^verbatim>\<open>read_grid_file\<close>: the existence test and, for an absent file, the
  warning, the directory, the look-up in \<^verbatim>\<open>DATA_URL\<close> and the download.
\<close>

definition fetch_if_absent :: "int \<Rightarrow> string \<Rightarrow> world \<Rightarrow> (error + unit) \<times> world" where
  "fetch_if_absent n geodatum w =
     (let filename = grid_filename w n geodatum;
          w1 = log_event (Exists filename) w
      in if files w1 filename \<noteq> None then (Inr (), w1)
         else
           (let w2 = log_event (Warn ''You are about to download the fibonacci grid file: {filename.name}'') w1;
                w3 = log_event (Mkdir (cache_dir w)) w2;
                key = ''n'' @ str_int n @ ''_'' @ lower geodatum
            in case map_of DATA_URL key of
                 None \<Rightarrow> (Inl (KeyError key), w3)
               | Some url \<Rightarrow>
                   (let w4 = log_event (Urlretrieve url filename) w3
                    in case remote w4 url of
                         None \<Rightarrow> (Inl (URLError url), w4)
                       | Some content \<Rightarrow> (Inr (), w4\<lparr>files := (files w4)(filename \<mapsto> content)\<rparr>))))"

text \<open>\<^verbatim>\<open>fp.variables[name][:].data\<close>, and NumPy's indexing of an array by an index array.\<close>

definition variable :: "dataset \<Rightarrow> string \<Rightarrow> error + ncval list" where
  "variable fp name = (case fp name of None \<Rightarrow> Inl (KeyError name) | Some a \<Rightarrow> Inr a)"

fun take_idx :: "'a list \<Rightarrow> ncval list \<Rightarrow> error + 'a list" where
  "take_idx xs [] = Inr []"
| "take_idx xs (NcFloat x # js) = Inl IndexError"
| "take_idx xs (NcInt i # js) =
     bind_err (getitem xs i) (\<lambda>v.
     bind_err (take_idx xs js) (\<lambda>vs. Inr (v # vs)))"

definition metadata_fields :: "string list" where
  "metadata_fields =
     [''land_frac_fw'', ''land_frac_hw'', ''land_mask_hw'', ''land_mask_fw'', ''land_flag'']"

text \<open>
  The two loops \<^verbatim>\<open>for f in metadata_fields\<close>: with an index array every field is
  indexed by it, without one it is taken as it is.
\<close>

fun metadata_loop :: "dataset \<Rightarrow> ncval list option \<Rightarrow> string list \<Rightarrow> error + ncval list list" where
  "metadata_loop fp idx [] = Inr []"
| "metadata_loop fp idx (f # fs) =
     bind_err (variable fp f) (\<lambda>a.
     bind_err (case idx of None \<Rightarrow> Inr a | Some ix \<Rightarrow> take_idx a ix) (\<lambda>b.
     bind_err (metadata_loop fp idx fs) (\<lambda>rest. Inr (b # rest))))"

text \<open>\<^verbatim>\<open>np.rec.fromarrays\<close>: the arrays must have the shape of the first one.\<close>

definition fromarrays :: "ncval list list \<Rightarrow> string list \<Rightarrow> error + (string \<times> ncval list) list" where
  "fromarrays arrs names =
     (if list_all (\<lambda>a. length a = length (hd arrs)) arrs then Inr (zip names arrs)
      else Inl (ValueError ''array-shape mismatch''))"

type_synonym grid_arrays =
  "ncval list \<times> ncval list \<times> ncval list \<times> ncval list \<times> (string \<times> ncval list) list"

text \<open>Lines 97 to 126: the block that reads the opened data set.\<close>

definition load_arrays :: "dataset \<Rightarrow> string \<Rightarrow> error + grid_arrays" where
  "load_arrays fp sort_order =
     bind_err (variable fp ''lon'') (\<lambda>lon.
     bind_err (variable fp ''lat'') (\<lambda>lat.
     bind_err (variable fp ''cell'') (\<lambda>cell.
     bind_err (variable fp ''gpi'') (\<lambda>gpi.
     if sort_order \<noteq> ''none'' then
       bind_err (variable fp (sort_order @ ''_sorting'')) (\<lambda>idx.
       bind_err (take_idx lon idx) (\<lambda>lon'.
       bind_err (take_idx lat idx) (\<lambda>lat'.
       bind_err (take_idx cell idx) (\<lambda>cell'.
       bind_err (take_idx gpi idx) (\<lambda>gpi'.
       bind_err (metadata_loop fp (Some idx) metadata_fields) (\<lambda>metadata_list.
       bind_err (fromarrays metadata_list metadata_fields) (\<lambda>metadata.
       Inr (lon', lat', cell', gpi', metadata))))))))
     else
       bind_err (metadata_loop fp None metadata_fields) (\<lambda>metadata_list.
       bind_err (fromarrays metadata_list metadata_fields) (\<lambda>metadata.
       Inr (lon, lat, cell, gpi, metadata)))))))"

definition read_grid_file ::
  "int \<Rightarrow> string \<Rightarrow> string \<Rightarrow> world \<Rightarrow> (error + grid_arrays) \<times> world" where
  "read_grid_file n geodatum sort_order w =
     (let filename = grid_filename w n geodatum
      in case fetch_if_absent n geodatum w of
           (Inl e, w1) \<Rightarrow> (Inl e, w1)
         | (Inr u, w1) \<Rightarrow>
             if geodatum \<notin> set [''sphere'', ''WGS84'']
             then (Inl (ValueError (''Geodatum unknown: '' @ geodatum)), w1)
             else if sort_order \<notin> set [''none'', ''latband'']
             then (Inl (ValueError (''Grid point sort order unknown: '' @ sort_order)), w1)
             else
               (let w2 = log_event (OpenDataset filename) w1
                in case files w2 filename of
                     Some (NetCDF fp) \<Rightarrow> (load_arrays fp sort_order, w2)
                   | _ \<Rightarrow> (Inl (OSError filename), w2)))"

text \<open>
  The chain of comparisons at the head of both constructors (lines 152 to 159 and 189
  to 196).
\<close>

definition resolution_n :: "real \<Rightarrow> error + int" where
  "resolution_n res =
     (if res = 6.25 then Inr 6600000
      else if res = 12.5 then Inr 1650000
      else if res = 25 then Inr 430000
      else Inl (ValueError ''Resolution unknown''))"

text \<open>
  \<^verbatim>\<open>CellGrid\<close> of the external library \<^verbatim>\<open>pygeogrids\<close> is consumed, not implemented
  here: the model keeps the arguments the constructor receives.
\<close>

record cellgrid =
  cg_lon :: "ncval list"
  cg_lat :: "ncval list"
  cg_cell :: "ncval list"
  cg_gpi :: "ncval list"
  cg_subset :: "nat list option"
  cg_geodatum :: string

record fibgrid =
  fg_res :: real
  fg_metadata :: "(string \<times> ncval list) list"
  fg_grid :: cellgrid

definition FibGrid_init ::
  "real \<Rightarrow> string \<Rightarrow> string \<Rightarrow> world \<Rightarrow> (error + fibgrid) \<times> world" where
  "FibGrid_init res geodatum sort_order w =
     (case resolution_n res of
        Inl e \<Rightarrow> (Inl e, w)
      | Inr n \<Rightarrow>
          (case read_grid_file n geodatum sort_order w of
             (Inl e, w1) \<Rightarrow> (Inl e, w1)
           | (Inr (lon, lat, cell, gpi, metadata), w1) \<Rightarrow>
               (Inr \<lparr>fg_res = res, fg_metadata = metadata,
                     fg_grid = \<lparr>cg_lon = lon, cg_lat = lat, cg_cell = cell, cg_gpi = gpi,
                                cg_subset = None, cg_geodatum = geodatum\<rparr>\<rparr>, w1)))"

text \<open>\<^verbatim>\<open>np.nonzero(a)[0]\<close>: the positions of the elements that are not zero, ascending.\<close>

definition is_nonzero :: "ncval \<Rightarrow> bool" where
  "is_nonzero v = (case v of NcFloat x \<Rightarrow> x \<noteq> 0 | NcInt i \<Rightarrow> i \<noteq> 0)"

definition nonzero :: "ncval list \<Rightarrow> nat list" where
  "nonzero a = filter (\<lambda>k. is_nonzero (a ! k)) [0..<length a]"

definition FibLandGrid_init ::
  "real \<Rightarrow> string \<Rightarrow> string \<Rightarrow> world \<Rightarrow> (error + fibgrid) \<times> world" where
  "FibLandGrid_init res geodatum sort_order w =
     (case resolution_n res of
        Inl e \<Rightarrow> (Inl e, w)
      | Inr n \<Rightarrow>
          (case read_grid_file n geodatum sort_order w of
             (Inl e, w1) \<Rightarrow> (Inl e, w1)
           | (Inr (lon, lat, cell, gpi, metadata), w1) \<Rightarrow>
               (case map_of metadata ''land_flag'' of
                  None \<Rightarrow> (Inl (ValueError ''no field of name land_flag''), w1)
                | Some land_flag \<Rightarrow>
                    (Inr \<lparr>fg_res = res, fg_metadata = metadata,
                          fg_grid = \<lparr>cg_lon = lon, cg_lat = lat, cg_cell = cell, cg_gpi = gpi,
                                     cg_subset = Some (nonzero land_flag),
                                     cg_geodatum = geodatum\<rparr>\<rparr>, w1))))"

section \<open>Auxiliary notions for the statements\<close>

text \<open>
  The slot of an array of \<open>2n+1\<close> elements that the index \<open>i\<close> addresses under
  Python's negative indexing, the loop value that addresses a given slot, and the two
  conditional corrections of the longitude as one function.
\<close>

definition slot :: "int \<Rightarrow> int \<Rightarrow> nat" where
  "slot n i = nat (if 0 \<le> i then i else 2 * n + 1 + i)"

definition slot_source :: "int \<Rightarrow> nat \<Rightarrow> int" where
  "slot_source n k = (if int k \<le> n then int k else int k - (2 * n + 1))"

definition wrap :: "real \<Rightarrow> real" where
  "wrap v = (let v1 = (if v < - 180 then v + 360 else v) in if v1 > 180 then v1 - 360 else v1)"

text \<open>
  A stand-in for \<^verbatim>\<open>pyproj\<close> in the examples: every call succeeds, and the
  transformer returns the coordinates unchanged in the order latitude, longitude.
\<close>

definition axis_swap_proj :: "unit pyproj" where
  "axis_swap_proj =
     \<lparr>from_epsg = (\<lambda>code. Inr ()), from_proj4 = (\<lambda>text. Inr ()),
      from_crs = (\<lambda>src dst. Inr (\<lambda>x y. Inr (y, x)))\<rparr>"

text \<open>
  A grid file of two points for the examples, a world whose cache is empty and whose
  remote store serves that file under every address of \<^verbatim>\<open>DATA_URL\<close>, and a world whose
  cache already holds it for \<open>n = 430000\<close> and WGS84.
\<close>

definition tiny_dataset :: dataset where
  "tiny_dataset =
     map_of
       [(''lon'', [NcFloat 10, NcFloat 20]),
        (''lat'', [NcFloat 5, NcFloat (- 5)]),
        (''cell'', [NcInt 7, NcInt 8]),
        (''gpi'', [NcInt 0, NcInt 1]),
        (''land_frac_fw'', [NcFloat 0, NcFloat 1]),
        (''land_frac_hw'', [NcFloat 0, NcFloat 1]),
        (''land_mask_hw'', [NcInt 0, NcInt 1]),
        (''land_mask_fw'', [NcInt 0, NcInt 1]),
        (''land_flag'', [NcInt 0, NcInt 1]),
        (''latband_sorting'', [NcInt 1, NcInt 0])]"

definition fresh_world :: world where
  "fresh_world =
     \<lparr>cache_dir = ''cache'', files = Map.empty,
      remote = map_of (map (\<lambda>kv. (snd kv, NetCDF tiny_dataset)) DATA_URL),
      trace = []\<rparr>"

definition cached_world :: world where
  "cached_world =
     \<lparr>cache_dir = ''cache'',
      files = [''cache/fibgrid_wgs84_n430000.nc'' \<mapsto> NetCDF tiny_dataset],
      remote = Map.empty, trace = []\<rparr>"

section \<open>64-bit integers and \<^verbatim>\<open>np.arange\<close>\<close>

text \<open>
  Within \<open>0 \<le> n < 2^62\<close> no operation wraps and the points are \<open>-n..n\<close>; from
  \<open>2^62\<close> on, and for \<open>-2^62 \<le> n < 0\<close>, the number of items is not positive and the
  points are empty.
\<close>

lemma int64_id: "- (2 ^ 63) \<le> k \<Longrightarrow> k < 2 ^ 63 \<Longrightarrow> int64 k = k"
  by (simp add: int64_def)

lemma int64_wrap_high: "2 ^ 63 \<le> k \<Longrightarrow> k < 2 ^ 63 + 2 ^ 64 \<Longrightarrow> int64 k = k - 2 ^ 64"
proof -
  assume a: "2 ^ 63 \<le> k" "k < 2 ^ 63 + 2 ^ 64"
  have "(k + 2 ^ 63) mod 2 ^ 64 = (k + 2 ^ 63 - 2 ^ 64) mod 2 ^ 64"
    by (simp only: minus_mod_self2)
  also have "\<dots> = k + 2 ^ 63 - 2 ^ 64"
    by (rule mod_pos_pos_trivial) (use a in simp_all)
  finally show ?thesis by (simp add: int64_def)
qed

lemma sint_range: "- (2 ^ 63) \<le> sint (n :: 64 word) \<and> sint n < 2 ^ 63"
  using sint_ge[of n] sint_lt[of n] by simp

lemma arange_exact:
  assumes "- (2 ^ 63) \<le> a" "a \<le> b" "b < 2 ^ 63" "b - a < 2 ^ 63"
  shows "arange a b = [a..b - 1]"
proof (rule nth_equalityI)
  have d: "int64 (b - a) = b - a" by (rule int64_id) (use assms in simp_all)
  show "length (arange a b) = length [a..b - 1]"
    using assms by (simp add: arange_def d)
  fix k assume "k < length (arange a b)"
  then have k: "int k < b - a" using assms by (simp add: arange_def d)
  then have "int64 (a + int k) = a + int k" by (intro int64_id) (use assms in simp_all)
  then show "arange a b ! k = [a..b - 1] ! k"
    using k assms by (simp add: arange_def d nth_upto)
qed

lemma arange_empty: "int64 (b - a) \<le> 0 \<Longrightarrow> arange a b = []"
  by (simp add: arange_def)

lemma points_exact:
  assumes "0 \<le> m" "m < 2 ^ 62"
  shows "arange (int64 (- m)) (int64 (m + 1)) = [- m..m]"
proof -
  have a: "int64 (- m) = - m" "int64 (m + 1) = m + 1"
    by (rule int64_id; use assms in simp)+
  show ?thesis unfolding a using arange_exact[of "- m" "m + 1"] assms by simp
qed


lemma points_overflow:
  assumes "2 ^ 62 \<le> m" "m < 2 ^ 63"
  shows "arange (int64 (- m)) (int64 (m + 1)) = []"
proof (cases "m + 1 < 2 ^ 63")
  case True
  have a: "int64 (- m) = - m" "int64 (m + 1) = m + 1"
    by (rule int64_id; use assms True in simp)+
  have "int64 (m + 1 - - m) = m + 1 - - m - 2 ^ 64"
    by (rule int64_wrap_high) (use assms True in simp_all)
  then show ?thesis unfolding a using assms True by (intro arange_empty) simp
next
  case False
  with assms have m: "m = 2 ^ 63 - 1" by simp
  have a: "int64 (- m) = - m" by (rule int64_id) (use m in simp_all)
  have b: "int64 (m + 1) = - (2 ^ 63)" unfolding m by (simp add: int64_def)
  have "int64 (- (2 ^ 63) - - m) = - 1" unfolding m by (simp add: int64_def)
  then show ?thesis unfolding a b by (intro arange_empty) simp
qed

lemma gpi_exact: "int N < 2 ^ 63 \<Longrightarrow> arange 0 (int N) = map int [0..<N]"
proof -
  assume N: "int N < 2 ^ 63"
  have d: "int64 (int N) = int N" by (rule int64_id) (use N in simp_all)
  have "int64 (int k) = int k" if "k < N" for k
    by (rule int64_id) (use that N in simp_all)
  then have "map (\<lambda>k. int64 (int k)) [0..<N] = map int [0..<N]" by simp
  then show ?thesis by (simp add: arange_def d)
qed

section \<open>The fill loop of \<^verbatim>\<open>compute_fib_grid\<close>\<close>

text \<open>
  Within \<open>0 \<le> n < 2^62\<close> every index the loop uses is in range, so each pass is two
  array updates at the slot of the loop value, and the loop is a fold of such updates.
  For any argument the loop ends without an error and keeps the number of slots.
\<close>

lemma slot_less: "0 \<le> n \<Longrightarrow> - n \<le> i \<Longrightarrow> i \<le> n \<Longrightarrow> slot n i < nat (2 * n + 1)"
  by (auto simp: slot_def)

lemma slot_le_int: "0 \<le> n \<Longrightarrow> - n \<le> i \<Longrightarrow> i \<le> n \<Longrightarrow> int (slot n i) \<le> 2 * n"
  by (auto simp: slot_def)

lemma nb_index_slot:
  assumes "0 \<le> n" "n < 2 ^ 62" "- n \<le> i" "i \<le> n"
  shows "nb_index (nat (2 * n + 1)) i = int (slot n i)"
proof (cases "i < 0")
  case True
  have "int64 (i + (2 * n + 1)) = i + (2 * n + 1)"
    by (rule int64_id) (use assms True in simp_all)
  with True assms show ?thesis by (simp add: nb_index_def slot_def)
next
  case False
  then show ?thesis by (simp add: nb_index_def slot_def)
qed

lemma nb_setitem_slot:
  assumes "0 \<le> n" "n < 2 ^ 62" "- n \<le> i" "i \<le> n" "length c = nat (2 * n + 1)"
  shows "nb_setitem (c, b) i v = (c[slot n i := Some v], b)"
  using assms slot_less[of n i] slot_le_int[of n i]
  by (simp add: nb_setitem_def nb_index_slot Let_def)

lemma nb_getitem_slot:
  assumes "0 \<le> n" "n < 2 ^ 62" "- n \<le> i" "i \<le> n" "length c = nat (2 * n + 1)"
  shows "nb_getitem (c[slot n i := Some v], b) i = Inr v"
  using assms slot_less[of n i] slot_le_int[of n i]
  by (simp add: nb_getitem_def nb_index_slot Let_def)

lemma fill_body_ok:
  assumes "0 \<le> n" "n < 2 ^ 62" "- n \<le> i" "i \<le> n"
    and "length lat = nat (2 * n + 1)" "length lon = nat (2 * n + 1)"
  shows "fill_body n ((lat, latm), (lon, lonm)) i =
     Inr ((lat[slot n i := Some (lat_value n i)], latm),
          (lon[slot n i := Some (wrap (raw_lon i))], lonm))"
proof -
  have s1: "nb_setitem (lat, latm) i v = (lat[slot n i := Some v], latm)" for v
    by (rule nb_setitem_slot[OF assms(1-5)])
  have s2: "nb_setitem (lon, lonm) i v = (lon[slot n i := Some v], lonm)" for v
    by (rule nb_setitem_slot[OF assms(1-4) assms(6)])
  have s3: "nb_setitem (lon[slot n i := Some u], lonm) i v = (lon[slot n i := Some v], lonm)" for u v
    using nb_setitem_slot[OF assms(1-4), of "lon[slot n i := Some u]" lonm v] assms(6) by simp
  have g: "nb_getitem (lon[slot n i := Some v], lonm) i = Inr v" for v
    by (rule nb_getitem_slot[OF assms(1-4) assms(6)])
  show ?thesis
    by (simp add: fill_body_def bind_err_def s1 s2 s3 g wrap_def Let_def)
qed

lemma fill_loop_ok:
  assumes "0 \<le> n" "n < 2 ^ 62" "\<forall>i\<in>set is. - n \<le> i \<and> i \<le> n"
    and "length lat = nat (2 * n + 1)" "length lon = nat (2 * n + 1)"
  shows "fill_loop n is ((lat, latm), (lon, lonm)) =
     Inr ((fold (\<lambda>i xs. xs[slot n i := Some (lat_value n i)]) is lat, latm),
          (fold (\<lambda>i xs. xs[slot n i := Some (wrap (raw_lon i))]) is lon, lonm))"
  using assms
proof (induction "is" arbitrary: lat lon)
  case Nil
  then show ?case by simp
next
  case (Cons i rest)
  then show ?case
    by (simp add: fill_body_ok bind_err_def)
qed

lemma length_nb_setitem: "length (fst (nb_setitem a i v)) = length (fst a)"
  by (simp add: nb_setitem_def Let_def)

lemma nb_getitem_nb_setitem: "nb_getitem (nb_setitem a i v) i = Inr v"
  by (auto simp: nb_setitem_def nb_getitem_def Let_def nat_less_iff)

lemma fill_body_eq:
  "fill_body n st i =
     Inr (nb_setitem (fst st) i (lat_value n i),
          (let lon1 = nb_setitem (snd st) i (raw_lon i);
               lon2 = (if raw_lon i < - 180 then nb_setitem lon1 i (raw_lon i + 360) else lon1);
               v2 = (if raw_lon i < - 180 then raw_lon i + 360 else raw_lon i)
           in if v2 > 180 then nb_setitem lon2 i (v2 - 360) else lon2))"
  by (simp add: fill_body_def Let_def bind_err_def nb_getitem_nb_setitem)

lemma fill_body_total:
  "\<exists>st'. fill_body n st i = Inr st'
     \<and> length (fst (fst st')) = length (fst (fst st))
     \<and> length (fst (snd st')) = length (fst (snd st))"
  unfolding fill_body_eq by (simp add: Let_def length_nb_setitem)

lemma fill_loop_total:
  "\<exists>st'. fill_loop n is st = Inr st'
     \<and> length (fst (fst st')) = length (fst (fst st))
     \<and> length (fst (snd st')) = length (fst (snd st))"
proof (induction "is" arbitrary: st)
  case Nil
  then show ?case by simp
next
  case (Cons i rest)
  from fill_body_total[of n st i] obtain st1 where
    b: "fill_body n st i = Inr st1"
    and l: "length (fst (fst st1)) = length (fst (fst st))"
      "length (fst (snd st1)) = length (fst (snd st))" by blast
  from Cons.IH[of st1] l b show ?case by (simp add: bind_err_def)
qed

lemma length_fold_update: "length (fold (\<lambda>i xs. xs[f i := g i]) is xs) = length xs"
  by (induction "is" arbitrary: xs) auto

lemma fold_update_other:
  "k \<notin> f ` set is \<Longrightarrow> fold (\<lambda>i xs. xs[f i := g i]) is xs ! k = xs ! k"
  by (induction "is" arbitrary: xs) auto

lemma fold_update_hit:
  "i \<in> set is \<Longrightarrow> distinct (map f is) \<Longrightarrow> f i < length xs \<Longrightarrow>
   fold (\<lambda>i xs. xs[f i := g i]) is xs ! f i = g i"
proof (induction "is" arbitrary: xs)
  case Nil
  then show ?case by simp
next
  case (Cons j rest)
  show ?case
  proof (cases "i \<in> set rest")
    case True
    with Cons show ?thesis by simp
  next
    case False
    with Cons.prems have ij: "i = j" and notin: "f j \<notin> f ` set rest" by auto
    then show ?thesis using Cons.prems by (simp add: fold_update_other)
  qed
qed

lemma slot_inj: "- n \<le> i \<Longrightarrow> i \<le> n \<Longrightarrow> - n \<le> j \<Longrightarrow> j \<le> n \<Longrightarrow> slot n i = slot n j \<Longrightarrow> i = j"
  by (auto simp: slot_def split: if_splits)

lemma slot_source_range: "0 \<le> n \<Longrightarrow> k < nat (2 * n + 1) \<Longrightarrow> - n \<le> slot_source n k \<and> slot_source n k \<le> n"
  by (auto simp: slot_source_def)

lemma slot_slot_source: "0 \<le> n \<Longrightarrow> k < nat (2 * n + 1) \<Longrightarrow> slot n (slot_source n k) = k"
  by (auto simp: slot_source_def slot_def)


lemma distinct_slots: "distinct (map (slot n) [- n..n])"
  by (auto simp: distinct_map inj_on_def dest: slot_inj)

lemma fill_fold_closed:
  assumes "0 \<le> n" "length xs = nat (2 * n + 1)"
  shows "fold (\<lambda>i xs. xs[slot n i := g i]) [- n..n] xs = map (\<lambda>k. g (slot_source n k)) [0..<nat (2 * n + 1)]"
proof (rule nth_equalityI)
  show "length (fold (\<lambda>i xs. xs[slot n i := g i]) [- n..n] xs) = length (map (\<lambda>k. g (slot_source n k)) [0..<nat (2 * n + 1)])"
    using assms by (simp add: length_fold_update)
next
  fix k assume "k < length (fold (\<lambda>i xs. xs[slot n i := g i]) [- n..n] xs)"
  then have k: "k < nat (2 * n + 1)" using assms by (simp add: length_fold_update)
  let ?i = "slot_source n k"
  have r: "- n \<le> ?i \<and> ?i \<le> n" using slot_source_range[OF assms(1) k] .
  have "fold (\<lambda>i xs. xs[slot n i := g i]) [- n..n] xs ! slot n ?i = g ?i"
    by (rule fold_update_hit) (use r k assms in \<open>simp_all add: distinct_slots slot_slot_source\<close>)
  then show "fold (\<lambda>i xs. xs[slot n i := g i]) [- n..n] xs ! k = map (\<lambda>k. g (slot_source n k)) [0..<nat (2 * n + 1)] ! k"
    using k assms by (simp add: slot_slot_source)
qed

lemma compute_fib_grid_closed:
  assumes "0 \<le> sint n" "sint n < 2 ^ 62"
  shows "compute_fib_grid n =
     Inr ([- sint n..sint n], map int [0..<nat (2 * sint n + 1)],
          map (\<lambda>k. Some (wrap (raw_lon (slot_source (sint n) k)))) [0..<nat (2 * sint n + 1)],
          map (\<lambda>k. Some (lat_value (sint n) (slot_source (sint n) k))) [0..<nat (2 * sint n + 1)])"
proof -
  let ?m = "sint n"
  let ?N = "nat (2 * ?m + 1)"
  have p: "arange (int64 (- ?m)) (int64 (?m + 1)) = [- ?m..?m]"
    by (rule points_exact[OF assms])
  have len: "length [- ?m..?m] = ?N" by simp
  have g: "arange 0 (2 * ?m + 1) = map int [0..<?N]"
    using gpi_exact[of ?N] assms by simp
  have "fill_loop ?m [- ?m..?m] ((replicate ?N None, \<lambda>j. None), (replicate ?N None, \<lambda>j. None)) =
     Inr ((fold (\<lambda>i xs. xs[slot ?m i := Some (lat_value ?m i)]) [- ?m..?m] (replicate ?N None), \<lambda>j. None),
          (fold (\<lambda>i xs. xs[slot ?m i := Some (wrap (raw_lon i))]) [- ?m..?m] (replicate ?N None), \<lambda>j. None))"
    by (rule fill_loop_ok) (use assms in auto)
  then show ?thesis using assms
    by (simp add: compute_fib_grid_def p len g np_empty_def bind_err_def fill_fold_closed Let_def)
qed

lemma compute_fib_grid_no_points:
  assumes "arange (int64 (- sint n)) (int64 (sint n + 1)) = []"
  shows "compute_fib_grid n = Inr ([], [], [], [])"
  using assms by (simp add: compute_fib_grid_def np_empty_def bind_err_def arange_def int64_def)

lemma compute_fib_grid_overflow:
  assumes "2 ^ 62 \<le> sint n"
  shows "compute_fib_grid n = Inr ([], [], [], [])"
  by (rule compute_fib_grid_no_points, rule points_overflow) (use assms sint_range[of n] in simp_all)


lemma compute_fib_grid_total:
  "\<exists>points gpi lon lat. compute_fib_grid n = Inr (points, gpi, lon, lat)
     \<and> length lon = length points \<and> length lat = length points"
proof -
  let ?p = "arange (int64 (- sint n)) (int64 (sint n + 1))"
  from fill_loop_total[of "sint n" ?p "(np_empty (length ?p), np_empty (length ?p))"]
  obtain st' where "fill_loop (sint n) ?p (np_empty (length ?p), np_empty (length ?p)) = Inr st'"
    "length (fst (fst st')) = length ?p" "length (fst (snd st')) = length ?p"
    by (auto simp: np_empty_def)
  then show ?thesis by (simp add: compute_fib_grid_def bind_err_def Let_def)
qed



section \<open>Ranges of the coordinates\<close>

lemma phi_pos: "0 < phi"
  unfolding phi_def by (simp add: add_pos_pos)

lemma np_mod_range: "0 < y \<Longrightarrow> 0 \<le> np_mod x y \<and> np_mod x y < y"
proof -
  assume y: "0 < y"
  have a: "of_int \<lfloor>x / y\<rfloor> \<le> x / y" by (rule of_int_floor_le)
  have b: "x / y < of_int \<lfloor>x / y\<rfloor> + 1" by linarith
  from a have a': "of_int \<lfloor>x / y\<rfloor> * y \<le> x" by (simp only: pos_le_divide_eq[OF y])
  from b have b': "x < (of_int \<lfloor>x / y\<rfloor> + 1) * y" by (simp only: pos_divide_less_eq[OF y])
  from a' b' show ?thesis by (simp add: np_mod_def algebra_simps)
qed

lemma raw_lon_range: "0 \<le> raw_lon i \<and> raw_lon i < 360"
proof -
  have r: "0 \<le> np_mod (of_int i) phi \<and> np_mod (of_int i) phi < phi"
    by (rule np_mod_range[OF phi_pos])
  then have "0 \<le> np_mod (of_int i) phi * 360 / phi" using phi_pos by simp
  moreover have "np_mod (of_int i) phi * 360 / phi < 360"
    using r phi_pos by (simp add: pos_divide_less_eq)
  ultimately show ?thesis by (simp add: raw_lon_def)
qed

lemma wrap_raw_lon_range: "- 180 < wrap (raw_lon i) \<and> wrap (raw_lon i) \<le> 180"
  using raw_lon_range[of i] by (auto simp: wrap_def Let_def)

lemma wrap_raw_lon: "wrap (raw_lon i) = (if raw_lon i > 180 then raw_lon i - 360 else raw_lon i)"
  using raw_lon_range[of i] by (auto simp: wrap_def Let_def)

lemma lat_value_exact:
  assumes "0 \<le> n" "n < 2 ^ 62" "- n \<le> i" "i \<le> n"
  shows "lat_value n i = arcsin (of_int (2 * i) / of_int (2 * n + 1)) * 180 / pi"
proof -
  have "int64 (2 * i) = 2 * i" "int64 (2 * n) = 2 * n" "int64 (2 * n + 1) = 2 * n + 1"
    by (rule int64_id; use assms in simp)+
  then show ?thesis by (simp add: lat_value_def)
qed

lemma lat_value_range:
  assumes "0 \<le> n" "n < 2 ^ 62" "- n \<le> i" "i \<le> n"
  shows "- 90 \<le> lat_value n i \<and> lat_value n i \<le> 90"
proof -
  let ?q = "real_of_int (2 * i) / real_of_int (2 * n + 1)"
  have d: "0 < real_of_int (2 * n + 1)" using assms by simp
  have "- real_of_int (2 * n + 1) \<le> real_of_int (2 * i)" "real_of_int (2 * i) \<le> real_of_int (2 * n + 1)"
    using assms by linarith+
  then have q: "- 1 \<le> ?q" "?q \<le> 1" using d by (simp_all add: pos_le_divide_eq pos_divide_le_eq)
  have b: "- (pi / 2) \<le> arcsin ?q \<and> arcsin ?q \<le> pi / 2"
    by (rule arcsin_bounded[OF q])
  have "arcsin ?q * 180 / pi \<le> 90" using b pi_gt_zero by (simp add: pos_divide_le_eq)
  moreover have "- 90 \<le> arcsin ?q * 180 / pi" using b pi_gt_zero by (simp add: pos_le_divide_eq)
  ultimately show ?thesis by (simp add: lat_value_exact[OF assms])
qed

lemma lat_value_zero: "lat_value n 0 = 0"
  by (simp add: lat_value_def int64_def)


lemma lat_value_neg:
  assumes "0 \<le> n" "n < 2 ^ 62" "i < 0" "- n \<le> i"
  shows "lat_value n i < 0"
proof -
  let ?q = "real_of_int (2 * i) / real_of_int (2 * n + 1)"
  have d: "0 < real_of_int (2 * n + 1)" using assms by simp
  have "- real_of_int (2 * n + 1) \<le> real_of_int (2 * i)" using assms by linarith
  then have q1: "- 1 \<le> ?q" using d by (simp add: pos_le_divide_eq)
  have q2: "?q < 0" using assms d by (simp add: divide_neg_pos)
  have "arcsin ?q < arcsin 0" by (rule arcsin_less_arcsin) (use q1 q2 in auto)
  then have "arcsin ?q < 0" by simp
  then have "arcsin ?q * 180 / pi < 0" using pi_gt_zero by (simp add: divide_neg_pos mult_neg_pos)
  then show ?thesis using lat_value_exact[of n i] assms by simp
qed

section \<open>The reprojection pass\<close>


lemma length_setitem: "setitem xs i v = Inr ys \<Longrightarrow> length ys = length xs"
  by (auto simp: setitem_def split: sum.splits)

lemma setitem_ok: "0 \<le> i \<Longrightarrow> i < int (length xs) \<Longrightarrow> setitem xs i v = Inr (xs[nat i := v])"
  by (simp add: setitem_def norm_index_def)

lemma bind_errE:
  assumes "bind_err m f = Inr y"
  obtains x where "m = Inr x" "f x = Inr y"
  using assms by (cases m) (auto simp: bind_err_def)

lemma transform_loop_length:
  "transform_loop tr ps i st = Inr st' \<Longrightarrow>
   length (fst st') = length (fst st) \<and> length (snd st') = length (snd st)"
proof (induction ps arbitrary: i st)
  case Nil
  then show ?case by simp
next
  case (Cons p ps)
  obtain lon lat where p: "p = (lon, lat)" by (cases p)
  from Cons.prems[unfolded p transform_loop.simps] obtain r a b where
    a: "setitem (fst st) i (fst r) = Inr a"
    and b: "setitem (snd st) i (snd r) = Inr b"
    and rest: "transform_loop tr ps (i + 1) (a, b) = Inr st'"
    by (elim bind_errE) blast
  from Cons.IH[OF rest] length_setitem[OF a] length_setitem[OF b]
  show ?case by simp
qed

lemma transform_loop_ok:
  assumes "\<forall>x y. \<exists>r. tr x y = Inr r"
    and "0 \<le> i" "i + int (length ps) \<le> int (length (fst st))"
    and "i + int (length ps) \<le> int (length (snd st))"
  shows "\<exists>st'. transform_loop tr ps i st = Inr st'"
  using assms(2-)
proof (induction ps arbitrary: i st)
  case Nil
  then show ?case by simp
next
  case (Cons p ps)
  obtain lon lat where p: "p = (lon, lat)" by (cases p)
  have "\<exists>r. (case (lon, lat) of
          (Some x, Some y) \<Rightarrow> bind_err (tr x y) (\<lambda>r. Inr (Some (fst r), Some (snd r)))
        | _ \<Rightarrow> Inr (None, None)) = Inr r"
  proof (cases lon)
    case None
    then show ?thesis by simp
  next
    case lo: (Some x)
    show ?thesis
    proof (cases lat)
      case None
      with lo show ?thesis by simp
    next
      case (Some y)
      from assms(1) obtain r where "tr x y = Inr r" by blast
      with lo Some show ?thesis by (simp add: bind_err_def)
    qed
  qed
  then obtain r where r: "(case (lon, lat) of
          (Some x, Some y) \<Rightarrow> bind_err (tr x y) (\<lambda>r. Inr (Some (fst r), Some (snd r)))
        | _ \<Rightarrow> Inr (None, None)) = Inr r" by blast
  have a: "setitem (fst st) i (fst r) = Inr ((fst st)[nat i := fst r])"
    by (rule setitem_ok) (use Cons.prems in auto)
  have b: "setitem (snd st) i (snd r) = Inr ((snd st)[nat i := snd r])"
    by (rule setitem_ok) (use Cons.prems in auto)
  have "\<exists>st'. transform_loop tr ps (i + 1) ((fst st)[nat i := fst r], (snd st)[nat i := snd r]) = Inr st'"
    by (rule Cons.IH) (use Cons.prems in auto)
  then show ?case unfolding p transform_loop.simps r using a b by (simp add: bind_err_def)
qed

lemma compute_fib_grid_wgs84_ok:
  assumes "from_epsg proj 4326 = Inr a"
    and "from_proj4 proj ''+proj=lonlat +ellps=sphere +R=6370997 +towgs84=0,0,0'' = Inr b"
    and "from_crs proj b a = Inr tr"
    and "\<forall>x y. \<exists>r. tr x y = Inr r"
  shows "\<exists>points gpi lon lat slon slat.
       compute_fib_grid n = Inr (points, gpi, slon, slat)
     \<and> compute_fib_grid_wgs84 proj n = Inr (points, gpi, lon, lat)
     \<and> length lon = length points \<and> length lat = length points"
proof -
  from compute_fib_grid_total[of n] obtain points gpi slon slat where
    g: "compute_fib_grid n = Inr (points, gpi, slon, slat)"
    and len: "length slon = length points" "length slat = length points"
    by blast
  have "\<exists>st'. transform_loop tr (zip slon slat) 0
      (replicate (length slat) (Some 0), replicate (length slon) (Some 0)) = Inr st'"
    by (rule transform_loop_ok[OF assms(4)]) (use len in auto)
  then obtain st' where
    t: "transform_loop tr (zip slon slat) 0
      (replicate (length slat) (Some 0), replicate (length slon) (Some 0)) = Inr st'" by blast
  from transform_loop_length[OF t] len
  have "length (fst st') = length points" "length (snd st') = length points" by auto
  then show ?thesis using assms(1-3) g t
    by (simp add: compute_fib_grid_wgs84_def bind_err_def)
qed

lemma wgs84_frame:
  assumes h: "compute_fib_grid_wgs84 proj n = Inr (p, g, lon, lat)"
  shows "\<exists>slon slat. compute_fib_grid n = Inr (p, g, slon, slat)
     \<and> length lon = length slon \<and> length lat = length slat"
proof -
  from h[unfolded compute_fib_grid_wgs84_def] obtain gr tr where
    s: "compute_fib_grid n = Inr gr" and
    rest: "(case gr of (points, gpi, sphere_lon, sphere_lat) \<Rightarrow>
        bind_err
          (transform_loop tr (zip sphere_lon sphere_lat) 0
             (replicate (length sphere_lat) (Some 0), replicate (length sphere_lon) (Some 0)))
          (\<lambda>st. Inr (points, gpi, snd st, fst st))) = Inr (p, g, lon, lat)"
    by (elim bind_errE) blast
  obtain p' g' slon slat where gr: "gr = (p', g', slon, slat)" by (cases gr)
  from rest[unfolded gr prod.case] obtain st' where
    t: "transform_loop tr (zip slon slat) 0
      (replicate (length slat) (Some 0), replicate (length slon) (Some 0)) = Inr st'"
    and r: "Inr (p', g', snd st', fst st') = (Inr (p, g, lon, lat) :: error + lattice)"
    by (elim bind_errE) blast
  from compute_fib_grid_total[of n] s gr have "length slon = length slat" by auto
  with transform_loop_length[OF t] r s gr show ?thesis by auto
qed

text \<open>
  At the least 64-bit integer the negation wraps, the points are that one integer, and
  its index lies outside the one slot: the two writes land outside the arrays, and the
  point is returned with coordinates that nothing wrote.
\<close>

lemma compute_fib_grid_min:
  "compute_fib_grid (- 9223372036854775808) = Inr ([- 9223372036854775808], [0], [None], [None])"
proof -
  have p: "arange (int64 9223372036854775808) (int64 (- 9223372036854775807))
      = [- 9223372036854775808]"
    by (simp add: arange_def int64_def)
  have g: "arange 0 1 = [0]" by (simp add: arange_def int64_def)
  have i: "nb_index (Suc 0) (- 9223372036854775808) = - 9223372036854775807"
    by (simp add: nb_index_def int64_def)
  show ?thesis
    by (simp add: compute_fib_grid_def p g np_empty_def fill_body_eq bind_err_def Let_def
        nb_setitem_def i)
qed

lemma compute_fib_grid_wgs84_min:
  "compute_fib_grid_wgs84 axis_swap_proj (- 9223372036854775808) =
     Inr ([- 9223372036854775808], [0], [None], [None])"
  by (simp add: compute_fib_grid_wgs84_def axis_swap_proj_def bind_err_def compute_fib_grid_min
      setitem_def norm_index_def)

section \<open>Properties of construction.py\<close>

text \<open>
  C1. The claim places the latitude \<open>arcsin(2i/(2n+1)) * 180/pi\<close> of the signed index
  \<open>i\<close> at grid point index \<open>i + n\<close>. The loop stores it at \<^verbatim>\<open>lat[i]\<close>, which for a
  negative \<open>i\<close> is slot \<open>2n+1+i\<close>. For \<open>n = 1\<close> the function returns the points
  \<open>-1, 0, 1\<close> and the grid point indices \<open>0, 1, 2\<close>, the latitude at grid point index
  0 is 0 and not \<open>arcsin(-2/3) * 180/pi\<close>, and that value stands at grid point index 2.
\<close>

theorem compute_fib_grid_1_latitudes:
  "\<exists>lon lat. compute_fib_grid 1 = Inr ([- 1, 0, 1], [0, 1, 2], lon, lat)
     \<and> lat ! 0 = Some 0
     \<and> lat ! 0 \<noteq> Some (arcsin (2 * (- 1) / (2 * 1 + 1)) * 180 / pi)
     \<and> lat ! 2 = Some (arcsin (2 * (- 1) / (2 * 1 + 1)) * 180 / pi)"
proof -
  have neg: "lat_value 1 (- 1) < 0" by (rule lat_value_neg) simp_all
  have eq: "lat_value 1 (- 1) = arcsin (2 * (- 1) / (2 * 1 + 1)) * 180 / pi"
    using lat_value_exact[of 1 "- 1"] by simp
  have up: "[0..<nat (2 * 1 + 1)] = [0, 1, 2]" by (simp add: upt_rec)
  have pts: "[- 1..1] = [- 1, 0, 1::int]" by (simp add: upto_rec1)
  have "compute_fib_grid 1 =
     Inr ([- 1, 0, 1], [0, 1, 2],
          map (\<lambda>k. Some (wrap (raw_lon (slot_source 1 k)))) [0, 1, 2],
          [Some (lat_value 1 0), Some (lat_value 1 1), Some (lat_value 1 (- 1))])"
    using compute_fib_grid_closed[of 1] up pts
    by (simp add: slot_source_def)
  then show ?thesis using neg unfolding eq[symmetric] by (simp add: lat_value_zero)
qed




text \<open>
  C3. For every 64-bit \<open>n > 0\<close>, \<^verbatim>\<open>compute_fib_grid(n)\<close> returns, every returned
  latitude is in \<open>[-90, 90]\<close> and every returned longitude in \<open>(-180, 180]\<close>. The raw
  longitude \<open>(i mod phi) * 360/phi\<close> is in \<open>[0, 360)\<close> for every integer \<open>i\<close>, negative
  ones included, so the test \<^verbatim>\<open>lon[i] < -180\<close> never holds. Floating-point numbers are
  read as reals.
\<close>

theorem compute_fib_grid_ranges:
  "0 < sint n \<Longrightarrow>
   (\<exists>points gpi lon lat. compute_fib_grid n = Inr (points, gpi, lon, lat)
      \<and> (\<forall>x\<in>set lat. \<exists>v. x = Some v \<and> - 90 \<le> v \<and> v \<le> 90)
      \<and> (\<forall>x\<in>set lon. \<exists>v. x = Some v \<and> - 180 < v \<and> v \<le> 180))
   \<and> (\<forall>i. 0 \<le> raw_lon i \<and> raw_lon i < 360 \<and> \<not> raw_lon i < - 180)"
proof -
  assume n: "0 < sint n"
  then have n0: "0 \<le> sint n" by simp
  have raw: "\<forall>i. 0 \<le> raw_lon i \<and> raw_lon i < 360 \<and> \<not> raw_lon i < - 180"
  proof
    fix i
    from raw_lon_range[of i] show "0 \<le> raw_lon i \<and> raw_lon i < 360 \<and> \<not> raw_lon i < - 180"
      by simp
  qed
  show ?thesis
  proof (cases "sint n < 2 ^ 62")
    case True
    have lat: "\<forall>x\<in>set (map (\<lambda>k. Some (lat_value (sint n) (slot_source (sint n) k)))
          [0..<nat (2 * sint n + 1)]).
        \<exists>v. x = Some v \<and> - 90 \<le> v \<and> v \<le> 90"
      using lat_value_range[OF n0 True] slot_source_range[OF n0] by auto
    have lon: "\<forall>x\<in>set (map (\<lambda>k. Some (wrap (raw_lon (slot_source (sint n) k))))
          [0..<nat (2 * sint n + 1)]).
        \<exists>v. x = Some v \<and> - 180 < v \<and> v \<le> 180"
      using wrap_raw_lon_range by auto
    from compute_fib_grid_closed[OF n0 True] lat lon raw show ?thesis by blast
  next
    case False
    then have "compute_fib_grid n = Inr ([], [], [], [])"
      by (intro compute_fib_grid_overflow) simp
    with raw show ?thesis by simp
  qed
qed

text \<open>The statement of C3 at \<open>n = 1\<close>.\<close>

theorem compute_fib_grid_ranges_witness:
  "0 < sint (1 :: 64 word) \<and>
   (\<exists>points gpi lon lat. compute_fib_grid 1 = Inr (points, gpi, lon, lat)
      \<and> list_all (\<lambda>x. \<exists>v. x = Some v \<and> - 90 \<le> v \<and> v \<le> 90) lat
      \<and> list_all (\<lambda>x. \<exists>v. x = Some v \<and> - 180 < v \<and> v \<le> 180) lon)"
  using compute_fib_grid_ranges[of 1] by (simp add: list_all_iff)







text \<open>
  C10. For every \<open>n > 0\<close>, when \<^verbatim>\<open>compute_fib_grid_wgs84(n)\<close> returns, its points and
  grid point indices are the arrays \<^verbatim>\<open>compute_fib_grid(n)\<close> returns, element for
  element in the same order, and the coordinate arrays have the same lengths.
\<close>

theorem compute_fib_grid_wgs84_indices:
  "0 < sint n \<Longrightarrow> compute_fib_grid_wgs84 proj n = Inr (points, gpi, lon, lat) \<Longrightarrow>
   \<exists>sphere_lon sphere_lat. compute_fib_grid n = Inr (points, gpi, sphere_lon, sphere_lat)
     \<and> length lon = length sphere_lon \<and> length lat = length sphere_lat"
  by (rule wgs84_frame)

text \<open>The statement of C10 at \<open>n = 1\<close> with the stand-in library.\<close>

theorem compute_fib_grid_wgs84_indices_witness:
  "0 < sint (1 :: 64 word) \<and>
   (\<exists>points gpi lon lat sphere_lon sphere_lat.
      compute_fib_grid_wgs84 axis_swap_proj 1 = Inr (points, gpi, lon, lat)
      \<and> compute_fib_grid 1 = Inr (points, gpi, sphere_lon, sphere_lat)
      \<and> length points = 3)"
proof -
  have "\<exists>points gpi lon lat slon slat.
       compute_fib_grid 1 = Inr (points, gpi, slon, slat)
     \<and> compute_fib_grid_wgs84 axis_swap_proj 1 = Inr (points, gpi, lon, lat)
     \<and> length lon = length points \<and> length lat = length points"
    by (rule compute_fib_grid_wgs84_ok[of axis_swap_proj "()" "()" "\<lambda>x y. Inr (y, x)"])
       (simp_all add: axis_swap_proj_def)
  then obtain points gpi lon lat where
    w: "compute_fib_grid_wgs84 axis_swap_proj 1 = Inr (points, gpi, lon, lat)" by blast
  have one: "0 < sint (1 :: 64 word)" by simp
  from compute_fib_grid_wgs84_indices[OF one w] obtain sphere_lon sphere_lat where
    s: "compute_fib_grid 1 = Inr (points, gpi, sphere_lon, sphere_lat)" by blast
  have "length [- 1..1::int] = 3" by simp
  with s compute_fib_grid_closed[of 1] have "length points = 3" by simp
  with w s one show ?thesis by blast
qed

section \<open>Properties of realization.py\<close>

lemma str_int_430000: "str_int 430000 = ''430000''"
  by (simp add: str_int_def)

lemma lower_WGS84: "lower ''WGS84'' = ''wgs84''"
  by (simp add: lower_def lower_char_def)

lemma lower_wgs84: "lower ''wgs84'' = ''wgs84''"
  by (simp add: lower_def lower_char_def)

lemma lower_foo: "lower ''foo'' = ''foo''"
  by (simp add: lower_def lower_char_def)

lemma resolution_n_values:
  "resolution_n 6.25 = Inr 6600000" "resolution_n 12.5 = Inr 1650000"
  "resolution_n 25 = Inr 430000"
  by (simp_all add: resolution_n_def)

lemma resolution_n_other:
  "res \<notin> {6.25, 12.5, 25} \<Longrightarrow> resolution_n res = Inl (ValueError ''Resolution unknown'')"
  by (simp add: resolution_n_def)

text \<open>
  C7. The constructor maps the resolutions 6.25, 12.5 and 25 to the point counts
  6600000, 1650000 and 430000, and its I/O is then that of reading the grid file of
  that point count; for any other resolution it fails with the error "Resolution
  unknown" and leaves the world as it was: no access to the cache, no download.
\<close>

theorem FibGrid_init_resolution:
  "(res \<notin> {6.25, 12.5, 25} \<longrightarrow>
      FibGrid_init res geodatum sort_order w = (Inl (ValueError ''Resolution unknown''), w))
   \<and> resolution_n 6.25 = Inr 6600000
   \<and> resolution_n 12.5 = Inr 1650000
   \<and> resolution_n 25 = Inr 430000
   \<and> snd (FibGrid_init 6.25 geodatum sort_order w) = snd (read_grid_file 6600000 geodatum sort_order w)
   \<and> snd (FibGrid_init 12.5 geodatum sort_order w) = snd (read_grid_file 1650000 geodatum sort_order w)
   \<and> snd (FibGrid_init 25 geodatum sort_order w) = snd (read_grid_file 430000 geodatum sort_order w)"
proof -
  have s: "snd (FibGrid_init r geodatum sort_order w) = snd (read_grid_file m geodatum sort_order w)"
    if "resolution_n r = Inr m" for r m
    using that by (simp add: FibGrid_init_def split: prod.splits sum.splits)
  show ?thesis
  proof (intro conjI impI)
    assume "res \<notin> {6.25, 12.5, 25}"
    then have "resolution_n res = Inl (ValueError ''Resolution unknown'')"
      by (rule resolution_n_other)
    then show "FibGrid_init res geodatum sort_order w = (Inl (ValueError ''Resolution unknown''), w)"
      by (simp add: FibGrid_init_def)
  qed (rule resolution_n_values s[OF resolution_n_values(1)] s[OF resolution_n_values(2)]
      s[OF resolution_n_values(3)])+
qed

text \<open>The statement of C7 at the resolution 50.\<close>

theorem FibGrid_init_resolution_witness:
  "(50::real) \<notin> {6.25, 12.5, 25}
   \<and> FibGrid_init 50 ''WGS84'' ''none'' fresh_world = (Inl (ValueError ''Resolution unknown''), fresh_world)"
  using FibGrid_init_resolution[of 50 "''WGS84''" "''none''" fresh_world] by simp

lemma fetch_fresh_WGS84:
  "fetch_if_absent 430000 ''WGS84'' fresh_world =
     (Inr (),
      fresh_world\<lparr>files := [''cache/fibgrid_wgs84_n430000.nc'' \<mapsto> NetCDF tiny_dataset],
        trace := [Exists ''cache/fibgrid_wgs84_n430000.nc'',
          Warn ''You are about to download the fibonacci grid file: {filename.name}'',
          Mkdir ''cache'',
          Urlretrieve ''https://github.com/TUW-GEO/fibgrid/releases/download/v0.0.8/fibgrid_wgs84_n430000.nc''
            ''cache/fibgrid_wgs84_n430000.nc'']\<rparr>)"
  by (simp add: fetch_if_absent_def grid_filename_def log_event_def fresh_world_def
      str_int_430000 lower_WGS84 DATA_URL_def Let_def)

lemma fetch_fresh_wgs84:
  "fetch_if_absent 430000 ''wgs84'' fresh_world =
     (Inr (),
      fresh_world\<lparr>files := [''cache/fibgrid_wgs84_n430000.nc'' \<mapsto> NetCDF tiny_dataset],
        trace := [Exists ''cache/fibgrid_wgs84_n430000.nc'',
          Warn ''You are about to download the fibonacci grid file: {filename.name}'',
          Mkdir ''cache'',
          Urlretrieve ''https://github.com/TUW-GEO/fibgrid/releases/download/v0.0.8/fibgrid_wgs84_n430000.nc''
            ''cache/fibgrid_wgs84_n430000.nc'']\<rparr>)"
  by (simp add: fetch_if_absent_def grid_filename_def log_event_def fresh_world_def
      str_int_430000 lower_wgs84 DATA_URL_def Let_def)

lemma fetch_fresh_foo:
  "fetch_if_absent 430000 ''foo'' fresh_world =
     (Inl (KeyError ''n430000_foo''),
      fresh_world\<lparr>trace := [Exists ''cache/fibgrid_foo_n430000.nc'',
          Warn ''You are about to download the fibonacci grid file: {filename.name}'',
          Mkdir ''cache'']\<rparr>)"
  by (simp add: fetch_if_absent_def grid_filename_def log_event_def fresh_world_def
      str_int_430000 lower_foo DATA_URL_def Let_def)

text \<open>
  C6. The claim has the geodatum and the sort order validated before the cache is
  consulted and the file fetched. \<^verbatim>\<open>read_grid_file\<close> does it afterwards: with an empty
  cache, an unknown sort order and the unknown geodatum \<open>wgs84\<close> are both rejected
  only after the file was downloaded, and the unknown geodatum \<open>foo\<close> raises a
  \<^verbatim>\<open>KeyError\<close> from the look-up of the address instead of the validation's error.
\<close>

theorem read_grid_file_validates_after_fetch:
  "fst (read_grid_file 430000 ''WGS84'' ''bogus'' fresh_world) =
     Inl (ValueError ''Grid point sort order unknown: bogus'')
   \<and> trace (snd (read_grid_file 430000 ''WGS84'' ''bogus'' fresh_world)) =
       [Exists ''cache/fibgrid_wgs84_n430000.nc'',
        Warn ''You are about to download the fibonacci grid file: {filename.name}'',
        Mkdir ''cache'',
        Urlretrieve ''https://github.com/TUW-GEO/fibgrid/releases/download/v0.0.8/fibgrid_wgs84_n430000.nc''
          ''cache/fibgrid_wgs84_n430000.nc'']
   \<and> fst (read_grid_file 430000 ''wgs84'' ''none'' fresh_world) =
       Inl (ValueError ''Geodatum unknown: wgs84'')
   \<and> trace (snd (read_grid_file 430000 ''wgs84'' ''none'' fresh_world)) =
       [Exists ''cache/fibgrid_wgs84_n430000.nc'',
        Warn ''You are about to download the fibonacci grid file: {filename.name}'',
        Mkdir ''cache'',
        Urlretrieve ''https://github.com/TUW-GEO/fibgrid/releases/download/v0.0.8/fibgrid_wgs84_n430000.nc''
          ''cache/fibgrid_wgs84_n430000.nc'']
   \<and> fst (read_grid_file 430000 ''foo'' ''none'' fresh_world) = Inl (KeyError ''n430000_foo'')"
  by (simp add: read_grid_file_def fetch_fresh_WGS84 fetch_fresh_wgs84 fetch_fresh_foo)

lemma files_log_event: "files (log_event e w) = files w"
  by (simp add: log_event_def)

lemma read_grid_file_InrD:
  assumes "read_grid_file n geodatum sort_order w = (Inr r, w')"
  shows "\<exists>w1 fp. fetch_if_absent n geodatum w = (Inr (), w1)
     \<and> geodatum \<in> set [''sphere'', ''WGS84''] \<and> sort_order \<in> set [''none'', ''latband'']
     \<and> w' = log_event (OpenDataset (grid_filename w n geodatum)) w1
     \<and> files w' (grid_filename w n geodatum) = Some (NetCDF fp)
     \<and> load_arrays fp sort_order = Inr r"
proof -
  obtain res1 w1 where f: "fetch_if_absent n geodatum w = (res1, w1)"
    by (cases "fetch_if_absent n geodatum w")
  from assms f have r1: "res1 = Inr ()"
    by (cases res1) (simp_all add: read_grid_file_def Let_def)
  from assms f r1 have g: "geodatum \<in> set [''sphere'', ''WGS84'']"
    by (auto simp: read_grid_file_def Let_def split: if_splits)
  from assms f r1 g have so: "sort_order \<in> set [''none'', ''latband'']"
    by (auto simp: read_grid_file_def Let_def split: if_splits)
  let ?w2 = "log_event (OpenDataset (grid_filename w n geodatum)) w1"
  from assms f r1 g so have
    c: "(case files ?w2 (grid_filename w n geodatum) of
           Some (NetCDF fp) \<Rightarrow> (load_arrays fp sort_order, ?w2)
         | _ \<Rightarrow> (Inl (OSError (grid_filename w n geodatum)), ?w2)) = (Inr r, w')"
    by (auto simp: read_grid_file_def Let_def split: if_splits)
  then obtain fp where fp: "files ?w2 (grid_filename w n geodatum) = Some (NetCDF fp)"
    by (cases "files ?w2 (grid_filename w n geodatum)")
       (auto split: ncfile.splits)
  from c fp have "load_arrays fp sort_order = Inr r" "w' = ?w2" by simp_all
  with f r1 g so fp show ?thesis by auto
qed

lemma read_grid_file_InrI:
  assumes "fetch_if_absent n geodatum w = (Inr (), w1)"
    and "geodatum \<in> set [''sphere'', ''WGS84'']" and "sort_order \<in> set [''none'', ''latband'']"
    and "files w1 (grid_filename w n geodatum) = Some (NetCDF fp)"
  shows "read_grid_file n geodatum sort_order w =
     (load_arrays fp sort_order, log_event (OpenDataset (grid_filename w n geodatum)) w1)"
  using assms by (simp add: read_grid_file_def Let_def files_log_event)

lemma take_idx_perm:
  "\<forall>k\<in>set perm. k < length xs \<Longrightarrow>
   take_idx xs (map (\<lambda>k. NcInt (int k)) perm) = Inr (map ((!) xs) perm)"
  by (induction perm) (simp_all add: bind_err_def getitem_def norm_index_def)

lemma metadata_loop_length:
  "metadata_loop fp idx fs = Inr ml \<Longrightarrow> length ml = length fs"
proof (induction fs arbitrary: ml)
  case Nil
  then show ?case by simp
next
  case (Cons f fs)
  from Cons.prems obtain a b rest where
    "metadata_loop fp idx fs = Inr rest" "ml = b # rest"
    by (auto elim!: bind_errE)
  with Cons.IH show ?case by simp
qed

lemma metadata_loop_perm:
  assumes "metadata_loop fp None fs = Inr ml"
    and "\<forall>a\<in>set ml. \<forall>k\<in>set perm. k < length a"
  shows "metadata_loop fp (Some (map (\<lambda>k. NcInt (int k)) perm)) fs =
     Inr (map (\<lambda>a. map ((!) a) perm) ml)"
  using assms
proof (induction fs arbitrary: ml)
  case Nil
  then show ?case by simp
next
  case (Cons f fs)
  from Cons.prems(1) obtain a rest where
    a: "variable fp f = Inr a" and rest: "metadata_loop fp None fs = Inr rest"
    and ml: "ml = a # rest"
    by (auto elim!: bind_errE)
  from Cons.prems(2) ml have "\<forall>k\<in>set perm. k < length a"
    and r: "\<forall>a\<in>set rest. \<forall>k\<in>set perm. k < length a" by auto
  then have t: "take_idx a (map (\<lambda>k. NcInt (int k)) perm) = Inr (map ((!) a) perm)"
    by (simp add: take_idx_perm)
  from Cons.IH[OF rest r] a t ml show ?case by (simp add: bind_err_def)
qed

lemma fromarrays_perm:
  assumes "fromarrays ml names = Inr md"
  shows "fromarrays (map (\<lambda>a. map ((!) a) perm) ml) names =
     Inr (map (\<lambda>fa. (fst fa, map ((!) (snd fa)) perm)) md)"
proof -
  from assms have md: "md = zip names ml"
    by (auto simp: fromarrays_def split: if_splits)
  have "list_all (\<lambda>a. length a = length (hd (map (\<lambda>a. map ((!) a) perm) ml)))
      (map (\<lambda>a. map ((!) a) perm) ml)"
    by (cases ml) (simp_all add: list_all_iff)
  moreover have "zip names (map (\<lambda>a. map ((!) a) perm) ml) =
      map (\<lambda>fa. (fst fa, map ((!) (snd fa)) perm)) (zip names ml)"
    by (simp add: zip_map2 case_prod_beta)
  ultimately show ?thesis using md by (simp add: fromarrays_def)
qed

lemma load_arrays_noneD:
  assumes "load_arrays fp ''none'' = Inr (lon, lat, cell, gpi, md)"
  shows "variable fp ''lon'' = Inr lon \<and> variable fp ''lat'' = Inr lat
     \<and> variable fp ''cell'' = Inr cell \<and> variable fp ''gpi'' = Inr gpi
     \<and> (\<exists>ml. metadata_loop fp None metadata_fields = Inr ml
           \<and> fromarrays ml metadata_fields = Inr md)"
proof -
  from assms have "bind_err (variable fp ''lon'') (\<lambda>lon.
     bind_err (variable fp ''lat'') (\<lambda>lat.
     bind_err (variable fp ''cell'') (\<lambda>cell.
     bind_err (variable fp ''gpi'') (\<lambda>gpi.
       bind_err (metadata_loop fp None metadata_fields) (\<lambda>metadata_list.
       bind_err (fromarrays metadata_list metadata_fields) (\<lambda>metadata.
       Inr (lon, lat, cell, gpi, metadata))))))) = Inr (lon, lat, cell, gpi, md)"
    by (simp add: load_arrays_def)
  then show ?thesis by (elim bind_errE) auto
qed

lemma load_arrays_latband:
  assumes "variable fp ''lon'' = Inr lon" "variable fp ''lat'' = Inr lat"
    and "variable fp ''cell'' = Inr cell" "variable fp ''gpi'' = Inr gpi"
    and "metadata_loop fp None metadata_fields = Inr ml"
    and "fromarrays ml metadata_fields = Inr md"
    and "variable fp ''latband_sorting'' = Inr (map (\<lambda>k. NcInt (int k)) perm)"
    and "\<forall>k\<in>set perm. k < N"
    and "length lon = N" "length lat = N" "length cell = N" "length gpi = N"
    and "\<forall>a\<in>set ml. length a = N"
  shows "load_arrays fp ''latband'' =
     Inr (map ((!) lon) perm, map ((!) lat) perm, map ((!) cell) perm, map ((!) gpi) perm,
          map (\<lambda>fa. (fst fa, map ((!) (snd fa)) perm)) md)"
proof -
  have t: "take_idx xs (map (\<lambda>k. NcInt (int k)) perm) = Inr (map ((!) xs) perm)"
    if "length xs = N" for xs :: "ncval list"
    using that assms(8) by (simp add: take_idx_perm)
  have m: "metadata_loop fp (Some (map (\<lambda>k. NcInt (int k)) perm)) metadata_fields =
     Inr (map (\<lambda>a. map ((!) a) perm) ml)"
    by (rule metadata_loop_perm[OF assms(5)]) (use assms(8,13) in auto)
  show ?thesis
    using assms(1-4,7) t[OF assms(9)] t[OF assms(10)] t[OF assms(11)] t[OF assms(12)] m
      fromarrays_perm[OF assms(6), of perm]
    by (simp add: load_arrays_def bind_err_def)
qed

lemma zip3_nth:
  assumes "length b = length a" "length c = length a"
  shows "zip a (zip b c) = map (\<lambda>k. (a ! k, b ! k, c ! k)) [0..<length a]"
  using assms by (intro nth_equalityI) simp_all

lemma zip3_map: "zip (map f p) (zip (map g p) (map h p)) = map (\<lambda>k. (f k, g k, h k)) p"
  by (induction p) simp_all

lemma mset_zip3_perm:
  assumes "mset perm = mset [0..<N]" "length a = N" "length b = N" "length c = N"
  shows "mset (zip (map ((!) a) perm) (zip (map ((!) b) perm) (map ((!) c) perm)))
     = mset (zip a (zip b c))"
proof -
  have "mset (map (\<lambda>k. (a ! k, b ! k, c ! k)) perm)
      = mset (map (\<lambda>k. (a ! k, b ! k, c ! k)) [0..<N])"
    using assms(1) by (metis mset_map)
  then show ?thesis using assms(2-4) by (simp only: zip3_map zip3_nth)
qed

text \<open>
  C8. When the read in the original order succeeds, the sorting array stored in the
  file that was read is a permutation of \<open>0..N-1\<close> and every array has \<open>N\<close> elements,
  the read with the sort order \<open>latband\<close> succeeds with the same I/O and returns the
  longitude, latitude, cell and grid point index arrays and every metadata field
  indexed by that one permutation, so position \<open>k\<close> of each holds what position
  \<open>perm ! k\<close> held; hence both reads contain the same multiset of triples of
  longitude, latitude and grid point index.
\<close>

theorem read_grid_file_latband_permutes:
  assumes "read_grid_file n geodatum ''none'' w = (Inr (lon, lat, cell, gpi, metadata), w')"
    and "files w' (grid_filename w n geodatum) = Some (NetCDF fp)"
    and "fp ''latband_sorting'' = Some (map (\<lambda>k. NcInt (int k)) perm)"
    and "mset perm = mset [0..<N]"
    and "length lon = N" "length lat = N" "length cell = N" "length gpi = N"
    and "list_all (\<lambda>fa. length (snd fa) = N) metadata"
  shows "read_grid_file n geodatum ''latband'' w =
       (Inr (map ((!) lon) perm, map ((!) lat) perm, map ((!) cell) perm,
             map ((!) gpi) perm, map (\<lambda>fa. (fst fa, map ((!) (snd fa)) perm)) metadata), w')
     \<and> mset (zip (map ((!) lon) perm) (zip (map ((!) lat) perm) (map ((!) gpi) perm)))
         = mset (zip lon (zip lat gpi))"
proof -
  from read_grid_file_InrD[OF assms(1)] obtain w1 fp' where
    f: "fetch_if_absent n geodatum w = (Inr (), w1)"
    and g: "geodatum \<in> set [''sphere'', ''WGS84'']"
    and w': "w' = log_event (OpenDataset (grid_filename w n geodatum)) w1"
    and fp': "files w' (grid_filename w n geodatum) = Some (NetCDF fp')"
    and la: "load_arrays fp' ''none'' = Inr (lon, lat, cell, gpi, metadata)"
    by blast
  from fp' assms(2) have eq: "fp' = fp" by simp
  from load_arrays_noneD[OF la[unfolded eq]] obtain ml where
    v: "variable fp ''lon'' = Inr lon" "variable fp ''lat'' = Inr lat"
       "variable fp ''cell'' = Inr cell" "variable fp ''gpi'' = Inr gpi"
    and ml: "metadata_loop fp None metadata_fields = Inr ml"
    and md: "fromarrays ml metadata_fields = Inr metadata"
    by blast
  from md have z: "metadata = zip metadata_fields ml"
    by (auto simp: fromarrays_def split: if_splits)
  from metadata_loop_length[OF ml] have len: "length ml = length metadata_fields" .
  have mlN: "\<forall>a\<in>set ml. length a = N"
  proof
    fix a assume "a \<in> set ml"
    then obtain j where j: "j < length ml" "ml ! j = a" by (auto simp: in_set_conv_nth)
    with len z have "(metadata_fields ! j, a) \<in> set metadata"
      by (auto simp: in_set_conv_nth)
    with assms(9) show "length a = N" by (auto simp: list_all_iff)
  qed
  have sv: "variable fp ''latband_sorting'' = Inr (map (\<lambda>k. NcInt (int k)) perm)"
    using assms(3) by (simp add: variable_def)
  have pr: "\<forall>k\<in>set perm. k < N"
    using assms(4) by (metis atLeastLessThan_iff set_upt mset_eq_setD)
  have l: "load_arrays fp ''latband'' =
     Inr (map ((!) lon) perm, map ((!) lat) perm, map ((!) cell) perm, map ((!) gpi) perm,
          map (\<lambda>fa. (fst fa, map ((!) (snd fa)) perm)) metadata)"
    by (rule load_arrays_latband[OF v ml md sv pr assms(5-8) mlN])
  have fw1: "files w1 (grid_filename w n geodatum) = Some (NetCDF fp)"
    using assms(2) w' by (simp add: files_log_event)
  have "read_grid_file n geodatum ''latband'' w = (load_arrays fp ''latband'', w')"
    unfolding w' by (rule read_grid_file_InrI[OF f g _ fw1]) simp
  with l mset_zip3_perm[OF assms(4,5,6,8)] show ?thesis by simp
qed

lemma read_cached_none:
  "read_grid_file 430000 ''WGS84'' ''none'' cached_world =
     (Inr ([NcFloat 10, NcFloat 20], [NcFloat 5, NcFloat (- 5)], [NcInt 7, NcInt 8],
           [NcInt 0, NcInt 1],
           [(''land_frac_fw'', [NcFloat 0, NcFloat 1]), (''land_frac_hw'', [NcFloat 0, NcFloat 1]),
            (''land_mask_hw'', [NcInt 0, NcInt 1]), (''land_mask_fw'', [NcInt 0, NcInt 1]),
            (''land_flag'', [NcInt 0, NcInt 1])]),
      cached_world\<lparr>trace := [Exists ''cache/fibgrid_wgs84_n430000.nc'',
         OpenDataset ''cache/fibgrid_wgs84_n430000.nc'']\<rparr>)"
  by (simp add: read_grid_file_def fetch_if_absent_def grid_filename_def log_event_def
      cached_world_def str_int_430000 lower_WGS84 Let_def load_arrays_def bind_err_def
      variable_def tiny_dataset_def metadata_fields_def fromarrays_def)

text \<open>The statement of C8 for the cached two-point file, whose sorting array is 1, 0.\<close>

theorem read_grid_file_latband_permutes_witness:
  "read_grid_file 430000 ''WGS84'' ''latband'' cached_world =
     (Inr ([NcFloat 20, NcFloat 10], [NcFloat (- 5), NcFloat 5], [NcInt 8, NcInt 7],
           [NcInt 1, NcInt 0],
           [(''land_frac_fw'', [NcFloat 1, NcFloat 0]), (''land_frac_hw'', [NcFloat 1, NcFloat 0]),
            (''land_mask_hw'', [NcInt 1, NcInt 0]), (''land_mask_fw'', [NcInt 1, NcInt 0]),
            (''land_flag'', [NcInt 1, NcInt 0])]),
      cached_world\<lparr>trace := [Exists ''cache/fibgrid_wgs84_n430000.nc'',
         OpenDataset ''cache/fibgrid_wgs84_n430000.nc'']\<rparr>)
   \<and> mset [(NcFloat 20, NcFloat (- 5), NcInt 1), (NcFloat 10, NcFloat 5, NcInt 0)]
       = mset [(NcFloat 10, NcFloat 5, NcInt 0), (NcFloat 20, NcFloat (- 5), NcInt 1)]"
proof -
  have f: "files (cached_world\<lparr>trace := [Exists ''cache/fibgrid_wgs84_n430000.nc'',
         OpenDataset ''cache/fibgrid_wgs84_n430000.nc'']\<rparr>)
       (grid_filename cached_world 430000 ''WGS84'') = Some (NetCDF tiny_dataset)"
    by (simp add: cached_world_def grid_filename_def str_int_430000 lower_WGS84)
  have s: "tiny_dataset ''latband_sorting'' = Some (map (\<lambda>k. NcInt (int k)) [1, 0])"
    by (simp add: tiny_dataset_def)
  have p: "mset [1, 0] = mset [0..<2]"
    by (simp add: upt_rec)
  have "read_grid_file 430000 ''WGS84'' ''latband'' cached_world =
       (Inr (map ((!) [NcFloat 10, NcFloat 20]) [1, 0], map ((!) [NcFloat 5, NcFloat (- 5)]) [1, 0],
             map ((!) [NcInt 7, NcInt 8]) [1, 0], map ((!) [NcInt 0, NcInt 1]) [1, 0],
             map (\<lambda>fa. (fst fa, map ((!) (snd fa)) [1, 0]))
               [(''land_frac_fw'', [NcFloat 0, NcFloat 1]), (''land_frac_hw'', [NcFloat 0, NcFloat 1]),
                (''land_mask_hw'', [NcInt 0, NcInt 1]), (''land_mask_fw'', [NcInt 0, NcInt 1]),
                (''land_flag'', [NcInt 0, NcInt 1])]),
        cached_world\<lparr>trace := [Exists ''cache/fibgrid_wgs84_n430000.nc'',
         OpenDataset ''cache/fibgrid_wgs84_n430000.nc'']\<rparr>)
     \<and> mset (zip (map ((!) [NcFloat 10, NcFloat 20]) [1, 0])
           (zip (map ((!) [NcFloat 5, NcFloat (- 5)]) [1, 0]) (map ((!) [NcInt 0, NcInt 1]) [1, 0])))
         = mset (zip [NcFloat 10, NcFloat 20] (zip [NcFloat 5, NcFloat (- 5)] [NcInt 0, NcInt 1]))"
    by (rule read_grid_file_latband_permutes[OF read_cached_none f s p]) simp_all
  then show ?thesis by simp
qed

lemma nonzero_set: "set (nonzero a) = {k. k < length a \<and> is_nonzero (a ! k)}"
  by (auto simp: nonzero_def)

lemma nonzero_sorted: "sorted (nonzero a) \<and> distinct (nonzero a)"
  by (simp add: nonzero_def sorted_wrt_filter)

lemma nonzero_length: "length (nonzero a) = length (filter is_nonzero a)"
proof -
  have "filter is_nonzero (map ((!) a) [0..<length a])
      = map ((!) a) (filter (is_nonzero \<circ> (!) a) [0..<length a])"
    by (rule filter_map)
  then have "filter is_nonzero a = map ((!) a) (nonzero a)"
    by (simp add: map_nth nonzero_def comp_def)
  then show ?thesis by simp
qed

lemma FibLandGrid_init_InrD:
  assumes "FibLandGrid_init res geodatum sort_order w = (Inr G, w')"
  shows "\<exists>n lon lat cell gpi metadata land_flag.
     resolution_n res = Inr n
     \<and> read_grid_file n geodatum sort_order w = (Inr (lon, lat, cell, gpi, metadata), w')
     \<and> map_of metadata ''land_flag'' = Some land_flag
     \<and> G = \<lparr>fg_res = res, fg_metadata = metadata,
            fg_grid = \<lparr>cg_lon = lon, cg_lat = lat, cg_cell = cell, cg_gpi = gpi,
                       cg_subset = Some (nonzero land_flag), cg_geodatum = geodatum\<rparr>\<rparr>"
proof -
  from assms obtain n where n: "resolution_n res = Inr n"
    by (cases "resolution_n res") (simp_all add: FibLandGrid_init_def)
  obtain r w1 where r: "read_grid_file n geodatum sort_order w = (r, w1)"
    by (cases "read_grid_file n geodatum sort_order w")
  from assms n r obtain arrs where a: "r = Inr arrs"
    by (cases r) (simp_all add: FibLandGrid_init_def)
  obtain lon lat cell gpi metadata where ar: "arrs = (lon, lat, cell, gpi, metadata)"
    by (cases arrs)
  from assms n r a ar obtain land_flag where lf: "map_of metadata ''land_flag'' = Some land_flag"
    by (cases "map_of metadata ''land_flag''") (simp_all add: FibLandGrid_init_def)
  from assms n r a ar lf show ?thesis by (simp add: FibLandGrid_init_def)
qed

text \<open>
  C9. When the land grid is constructed, the full grid is constructed from the same
  arguments with the same arrays and metadata; the subset handed to the cell grid is
  the ascending list of exactly the storage positions whose \<open>land_flag\<close> is not zero,
  its length is the number of such flags, and the grid point index array is the one of
  the full grid, not renumbered.
\<close>

theorem FibLandGrid_init_subset:
  assumes "FibLandGrid_init res geodatum sort_order w = (Inr G, w')"
  shows "\<exists>F land_flag.
     FibGrid_init res geodatum sort_order w = (Inr F, w')
     \<and> fg_metadata G = fg_metadata F
     \<and> cg_gpi (fg_grid G) = cg_gpi (fg_grid F)
     \<and> cg_lon (fg_grid G) = cg_lon (fg_grid F)
     \<and> cg_lat (fg_grid G) = cg_lat (fg_grid F)
     \<and> cg_cell (fg_grid G) = cg_cell (fg_grid F)
     \<and> map_of (fg_metadata F) ''land_flag'' = Some land_flag
     \<and> cg_subset (fg_grid G) = Some (nonzero land_flag)
     \<and> set (nonzero land_flag) = {k. k < length land_flag \<and> is_nonzero (land_flag ! k)}
     \<and> sorted (nonzero land_flag) \<and> distinct (nonzero land_flag)
     \<and> length (nonzero land_flag) = length (filter is_nonzero land_flag)"
proof -
  from FibLandGrid_init_InrD[OF assms] obtain n lon lat cell gpi metadata land_flag where
    n: "resolution_n res = Inr n"
    and r: "read_grid_file n geodatum sort_order w = (Inr (lon, lat, cell, gpi, metadata), w')"
    and lf: "map_of metadata ''land_flag'' = Some land_flag"
    and G: "G = \<lparr>fg_res = res, fg_metadata = metadata,
            fg_grid = \<lparr>cg_lon = lon, cg_lat = lat, cg_cell = cell, cg_gpi = gpi,
                       cg_subset = Some (nonzero land_flag), cg_geodatum = geodatum\<rparr>\<rparr>"
    by blast
  let ?F = "\<lparr>fg_res = res, fg_metadata = metadata,
            fg_grid = \<lparr>cg_lon = lon, cg_lat = lat, cg_cell = cell, cg_gpi = gpi,
                       cg_subset = None, cg_geodatum = geodatum\<rparr>\<rparr>"
  have F: "FibGrid_init res geodatum sort_order w = (Inr ?F, w')"
    using n r by (simp add: FibGrid_init_def)
  show ?thesis
    apply (rule exI[of _ ?F], rule exI[of _ land_flag])
    using F G lf nonzero_set[of land_flag] nonzero_sorted[of land_flag] nonzero_length[of land_flag]
    by simp
qed

text \<open>The statement of C9 for the cached two-point file at the resolution 25.\<close>

theorem FibLandGrid_init_subset_witness:
  "\<exists>G w' F. FibLandGrid_init 25 ''WGS84'' ''none'' cached_world = (Inr G, w')
     \<and> FibGrid_init 25 ''WGS84'' ''none'' cached_world = (Inr F, w')
     \<and> cg_subset (fg_grid G) = Some [1]
     \<and> cg_gpi (fg_grid G) = [NcInt 0, NcInt 1]
     \<and> cg_gpi (fg_grid F) = [NcInt 0, NcInt 1]"
proof -
  let ?md = "[(''land_frac_fw'', [NcFloat 0, NcFloat 1]), (''land_frac_hw'', [NcFloat 0, NcFloat 1]),
            (''land_mask_hw'', [NcInt 0, NcInt 1]), (''land_mask_fw'', [NcInt 0, NcInt 1]),
            (''land_flag'', [NcInt 0, NcInt 1])]"
  let ?G = "\<lparr>fg_res = 25, fg_metadata = ?md,
            fg_grid = \<lparr>cg_lon = [NcFloat 10, NcFloat 20], cg_lat = [NcFloat 5, NcFloat (- 5)],
                       cg_cell = [NcInt 7, NcInt 8], cg_gpi = [NcInt 0, NcInt 1],
                       cg_subset = Some (nonzero [NcInt 0, NcInt 1]), cg_geodatum = ''WGS84''\<rparr>\<rparr>"
  let ?w = "cached_world\<lparr>trace := [Exists ''cache/fibgrid_wgs84_n430000.nc'',
         OpenDataset ''cache/fibgrid_wgs84_n430000.nc'']\<rparr>"
  have nz: "nonzero [NcInt 0, NcInt 1] = [1]"
    by (simp add: nonzero_def is_nonzero_def upt_rec)
  have E: "FibLandGrid_init 25 ''WGS84'' ''none'' cached_world = (Inr ?G, ?w)"
    by (simp add: FibLandGrid_init_def resolution_n_def read_cached_none)
  from FibLandGrid_init_subset[OF E] obtain F where
    "FibGrid_init 25 ''WGS84'' ''none'' cached_world = (Inr F, ?w)"
    "cg_gpi (fg_grid ?G) = cg_gpi (fg_grid F)"
    by blast
  with E nz show ?thesis by auto
qed

end
